theory Spec2Isabelle
  imports Complex_Main "HOL-Library.Multiset"
begin

section \<open>JavaScript values used by the order service\<close>

text \<open>
  A JavaScript \<^verbatim>\<open>number\<close> is a finite value, one of the two infinities, or
  \<^verbatim>\<open>NaN\<close>. A finite value is held as an exact rational: the rounding of a double to 53
  bits, underflow and the sign of zero are outside the model. Overflow is in the model: a result
  whose magnitude reaches \<open>2 ^ 1024 - 2 ^ 970\<close>, from where on a double rounds to an infinity,
  is an infinity.
\<close>

datatype number = Num rat | PosInfinity | NegInfinity | NaN

definition overflowBound :: rat where
  "overflowBound = 2 ^ 1024 - 2 ^ 970"

definition fromExact :: "rat \<Rightarrow> number" where
  "fromExact r =
     (if overflowBound \<le> r then PosInfinity
      else if r \<le> - overflowBound then NegInfinity
      else Num r)"

definition finiteValue :: "number \<Rightarrow> rat" where
  "finiteValue x = (case x of Num r \<Rightarrow> r | _ \<Rightarrow> 0)"


text \<open>The operators \<^verbatim>\<open>+\<close>, \<^verbatim>\<open>*\<close>, \<^verbatim>\<open><\<close> and \<^verbatim>\<open><=\<close> on numbers.\<close>

definition js_add :: "number \<Rightarrow> number \<Rightarrow> number" where
  "js_add x y =
     (case (x, y) of
        (Num a, Num b) \<Rightarrow> fromExact (a + b)
      | _ \<Rightarrow>
          if x = NaN \<or> y = NaN then NaN
          else if (x = PosInfinity \<and> y = NegInfinity) \<or> (x = NegInfinity \<and> y = PosInfinity) then NaN
          else if x = PosInfinity \<or> y = PosInfinity then PosInfinity
          else NegInfinity)"


definition js_less :: "number \<Rightarrow> number \<Rightarrow> bool" where
  "js_less x y =
     (case (x, y) of
        (Num a, Num b) \<Rightarrow> a < b
      | _ \<Rightarrow> x \<noteq> NaN \<and> y \<noteq> NaN \<and> x \<noteq> y \<and> (x = NegInfinity \<or> y = PosInfinity))"

definition js_less_eq :: "number \<Rightarrow> number \<Rightarrow> bool" where
  "js_less_eq x y =
     (case (x, y) of
        (Num a, Num b) \<Rightarrow> a \<le> b
      | _ \<Rightarrow> x \<noteq> NaN \<and> y \<noteq> NaN \<and> (x = y \<or> x = NegInfinity \<or> y = PosInfinity))"

definition Number_isFinite :: "number \<Rightarrow> bool" where
  "Number_isFinite x = (case x of Num _ \<Rightarrow> True | _ \<Rightarrow> False)"

definition Number_isInteger :: "number \<Rightarrow> bool" where
  "Number_isInteger x = (case x of Num r \<Rightarrow> of_int \<lfloor>r\<rfloor> = r | _ \<Rightarrow> False)"

text \<open>A \<^verbatim>\<open>Date\<close> is its time value: milliseconds since the epoch.\<close>

type_synonym Date = int

text \<open>
  \<^verbatim>\<open>Result<T, E>\<close> of \<^verbatim>\<open>shared/Results.ts\<close> is the sum type \<open>E + T\<close>:
  \<^verbatim>\<open>fail(e)\<close> is \<open>Inl e\<close> and \<^verbatim>\<open>ok(v)\<close> is \<open>Inr v\<close>.
\<close>

definition isOk :: "'e + 'a \<Rightarrow> bool" where
  "isOk r = (case r of Inl _ \<Rightarrow> False | Inr _ \<Rightarrow> True)"

definition isFail :: "'e + 'a \<Rightarrow> bool" where
  "isFail r = (case r of Inl _ \<Rightarrow> True | Inr _ \<Rightarrow> False)"

subsection \<open>The built-in \<^verbatim>\<open>Map\<close>\<close>

text \<open>
  A JavaScript \<^verbatim>\<open>Map<string, V>\<close> iterates in insertion order, and \<^verbatim>\<open>set\<close> on a
  key that is present replaces the value where it stands. It is modelled as an association
  list: \<open>Map_set\<close> overwrites in place or appends at the end.
\<close>

type_synonym 'v JsMap = "(string \<times> 'v) list"

fun Map_get :: "'v JsMap \<Rightarrow> string \<Rightarrow> 'v option" where
  "Map_get [] k = None"
| "Map_get ((k', v') # m) k = (if k' = k then Some v' else Map_get m k)"

fun Map_set :: "string \<Rightarrow> 'v \<Rightarrow> 'v JsMap \<Rightarrow> 'v JsMap" where
  "Map_set k v [] = [(k, v)]"
| "Map_set k v ((k', v') # m) = (if k' = k then (k, v) # m else (k', v') # Map_set k v m)"

definition Map_size :: "'v JsMap \<Rightarrow> nat" where
  "Map_size m = length m"

definition Map_values :: "'v JsMap \<Rightarrow> 'v list" where
  "Map_values m = map snd m"

definition Map_keys :: "'v JsMap \<Rightarrow> string list" where
  "Map_keys m = map fst m"

definition Map_has :: "'v JsMap \<Rightarrow> string \<Rightarrow> bool" where
  "Map_has m k = (Map_get m k \<noteq> None)"

subsection \<open>Strings\<close>

text \<open>
  A string is a list of characters. \<^verbatim>\<open>trim\<close> removes white space and line terminators
  at both ends; of the characters of the model these are TAB, LF, VT, FF, CR, SPACE and
  NBSP. \<^verbatim>\<open>toUpperCase\<close> is modelled on ASCII, where it maps \<^verbatim>\<open>a\<close>..\<^verbatim>\<open>z\<close> to
  \<^verbatim>\<open>A\<close>..\<^verbatim>\<open>Z\<close> and leaves every other character as it is; the case mapping of
  characters beyond ASCII is outside the model.
\<close>

definition isWhiteSpace :: "char \<Rightarrow> bool" where
  "isWhiteSpace c = (c \<in> set [CHR 0x09, CHR 0x0A, CHR 0x0B, CHR 0x0C, CHR 0x0D, CHR 0x20, CHR 0xA0])"

definition trim :: "string \<Rightarrow> string" where
  "trim s = rev (dropWhile isWhiteSpace (rev (dropWhile isWhiteSpace s)))"

definition toUpperCase_char :: "char \<Rightarrow> char" where
  "toUpperCase_char c =
     (case map_of (zip ''abcdefghijklmnopqrstuvwxyz'' ''ABCDEFGHIJKLMNOPQRSTUVWXYZ'') c of
        Some C \<Rightarrow> C
      | None \<Rightarrow> c)"

definition toUpperCase :: "string \<Rightarrow> string" where
  "toUpperCase s = map toUpperCase_char s"

text \<open>\<^verbatim>\<open>s.substring(a, b)\<close>: both indices are clamped to the length, and swapped when \<open>a > b\<close>.\<close>

definition substring :: "nat \<Rightarrow> nat \<Rightarrow> string \<Rightarrow> string" where
  "substring a b s = (let lo = min a b; hi = max a b in take (hi - lo) (drop lo s))"

text \<open>\<^verbatim>\<open>n.toString(36)\<close> for an integer \<open>n\<close>.\<close>

definition base36_digits :: string where
  "base36_digits = ''0123456789abcdefghijklmnopqrstuvwxyz''"

definition digit36 :: "nat \<Rightarrow> char" where
  "digit36 d = base36_digits ! d"

fun toString36_nat :: "nat \<Rightarrow> string" where
  "toString36_nat n =
     (if n < 36 then [digit36 n] else toString36_nat (n div 36) @ [digit36 (n mod 36)])"

declare toString36_nat.simps [simp del]

definition Number_toString36 :: "int \<Rightarrow> string" where
  "Number_toString36 n =
     (if n < 0 then CHR ''-'' # toString36_nat (nat (- n)) else toString36_nat (nat n))"

definition is_base36 :: "string \<Rightarrow> bool" where
  "is_base36 s = list_all (\<lambda>c. c \<in> set base36_digits) s"

subsection \<open>Failure reasons\<close>

text \<open>
  The source reports a failure as a Spanish sentence. Each sentence is one constructor here;
  the sentences that interpolate a value carry that value.
\<close>

datatype ErrorMessage =
    InvalidAmount                       \<comment> \<open>Money.create: the amount is not a finite number\<close>
  | NegativeAmount                      \<comment> \<open>Money.create: the amount is negative\<close>
  | DifferentCurrencies string string   \<comment> \<open>Money.add: the two currency codes\<close>
  | InvalidFactor                       \<comment> \<open>Money.multiply\<close>
  | QuantityNotInteger                  \<comment> \<open>Quantity.create\<close>
  | QuantityNotPositive                 \<comment> \<open>Quantity.create\<close>
  | EmptyOrderId                        \<comment> \<open>OrderId.create\<close>
  | EmptyProductId                      \<comment> \<open>ProductId.create\<close>
  | InvalidCurrencyCode string          \<comment> \<open>Currency.create: the code as given\<close>
  | ZeroUnitPrice                       \<comment> \<open>Order.addItem\<close>
  | CurrencyMismatch string             \<comment> \<open>Order.addItem: the expected currency code\<close>
  | OrderHasNoItems                     \<comment> \<open>Order.calculateTotal\<close>
  | MultipleCurrencies                  \<comment> \<open>Order.calculateTotal\<close>

section \<open>Value objects\<close>

subsection \<open>Currency\<close>

datatype Currency = Currency (code: string)

definition Currency_equals :: "Currency \<Rightarrow> Currency \<Rightarrow> bool" where
  "Currency_equals this other = (code this = code other)"

definition getSupportedCurrencies :: "string list" where
  "getSupportedCurrencies = [''USD'', ''EUR'', ''GBP'', ''JPY'', ''MXN'', ''ARS'', ''CLP'']"

definition isValidCurrencyCode :: "string \<Rightarrow> bool" where
  "isValidCurrencyCode c = (c \<in> set [''USD'', ''EUR'', ''GBP'', ''JPY'', ''MXN'', ''ARS'', ''CLP''])"

definition Currency_create :: "string \<Rightarrow> ErrorMessage + Currency" where
  "Currency_create c =
     (let upperCode = toUpperCase c
      in if \<not> isValidCurrencyCode upperCode then Inl (InvalidCurrencyCode c)
         else Inr (Currency upperCode))"

subsection \<open>Money\<close>

record Money =
  amount :: number
  currency :: Currency

definition Money_create :: "number \<Rightarrow> Currency \<Rightarrow> ErrorMessage + Money" where
  "Money_create a c =
     (if \<not> Number_isFinite a then Inl InvalidAmount
      else if js_less a (Num 0) then Inl NegativeAmount
      else Inr \<lparr>amount = a, currency = c\<rparr>)"

definition hasSameCurrency :: "Money \<Rightarrow> Money \<Rightarrow> bool" where
  "hasSameCurrency this other = Currency_equals (currency this) (currency other)"



subsection \<open>Quantity and ProductId\<close>

datatype Quantity = Quantity (qty_value: number)

definition Quantity_create :: "number \<Rightarrow> ErrorMessage + Quantity" where
  "Quantity_create v =
     (if \<not> Number_isInteger v then Inl QuantityNotInteger
      else if js_less_eq v (Num 0) then Inl QuantityNotPositive
      else Inr (Quantity v))"

definition Quantity_add :: "Quantity \<Rightarrow> Quantity \<Rightarrow> Quantity" where
  "Quantity_add this other = Quantity (js_add (qty_value this) (qty_value other))"

datatype ProductId = ProductId (pid_value: string)

subsection \<open>OrderId\<close>

datatype OrderId = OrderId (oid_value: string)

definition OrderId_create :: "string \<Rightarrow> ErrorMessage + OrderId" where
  "OrderId_create v =
     (if v = [] \<or> length (trim v) = 0 then Inl EmptyOrderId else Inr (OrderId (trim v)))"

text \<open>
  \<^verbatim>\<open>OrderId.generate\<close> reads the clock (\<^verbatim>\<open>Date.now()\<close>, here \<open>now\<close>) and the random
  source. \<open>r36\<close> is the string \<^verbatim>\<open>Math.random().toString(36)\<close>: \<^verbatim>\<open>0\<close> when the random
  number is zero, and otherwise \<^verbatim>\<open>0.\<close> followed by the base-36 digits that render it, as
  many as the engine prints for that number (\<^verbatim>\<open>0.i\<close> for one half).
\<close>

definition OrderId_generate :: "Date \<Rightarrow> string \<Rightarrow> OrderId" where
  "OrderId_generate now r36 =
     (let timestamp = Number_toString36 now;
          random = substring 2 9 r36
      in OrderId (''ORD-'' @ timestamp @ ''-'' @ random))"

text \<open>
  The form the specification gives to a generated id: \<^verbatim>\<open>ORD-\<close>, the base-36 timestamp,
  a hyphen, and a suffix of exactly seven base-36 characters.
\<close>

definition spec_generated_form :: "Date \<Rightarrow> string \<Rightarrow> bool" where
  "spec_generated_form now v =
     (let pre = ''ORD-'' @ Number_toString36 now @ ''-''; r = drop (length pre) v
      in take (length pre) v = pre \<and> length r = 7 \<and> is_base36 r)"

subsection \<open>OrderItem\<close>

record OrderItem =
  productId :: ProductId
  quantity :: Quantity
  unitPrice :: Money

definition OrderItem_create :: "ProductId \<Rightarrow> Quantity \<Rightarrow> Money \<Rightarrow> ErrorMessage + OrderItem" where
  "OrderItem_create p q u = Inr \<lparr>productId = p, quantity = q, unitPrice = u\<rparr>"


definition increaseQuantity :: "OrderItem \<Rightarrow> Quantity \<Rightarrow> OrderItem" where
  "increaseQuantity this additionalQuantity =
     (let newQuantity = Quantity_add (quantity this) additionalQuantity
      in \<lparr>productId = productId this, quantity = newQuantity, unitPrice = unitPrice this\<rparr>)"

text \<open>
  The invariants of the value objects inside a line: \<^verbatim>\<open>Money.create\<close> admits finite
  amounts that are not negative, and \<^verbatim>\<open>Quantity.create\<close> finite quantities that are
  positive.
\<close>

definition OrderItem_inv :: "OrderItem \<Rightarrow> bool" where
  "OrderItem_inv item =
     ((case amount (unitPrice item) of Num a \<Rightarrow> 0 \<le> a | _ \<Rightarrow> False) \<and>
      (case qty_value (quantity item) of Num n \<Rightarrow> 0 < n | _ \<Rightarrow> False))"



section \<open>Domain events\<close>

text \<open>
  The abstract class \<^verbatim>\<open>DomainEvent\<close> holds \<^verbatim>\<open>occurredAt\<close> and \<^verbatim>\<open>aggregateId\<close>; its
  constructor stores the string it is given as \<^verbatim>\<open>aggregateId\<close> and reads the clock. The
  fields a subclass adds are the \<open>details\<close>. The clock reading is an argument of every
  operation that builds an event.
\<close>

datatype EventDetails =
    OrderCreatedDetails OrderId
  | OrderItemAddedDetails OrderId ProductId Quantity Money
  | OrderItemQuantityIncreasedDetails OrderId ProductId Quantity Quantity

record DomainEvent =
  occurredAt :: Date
  aggregateId :: string
  details :: EventDetails

definition new_DomainEvent :: "Date \<Rightarrow> string \<Rightarrow> EventDetails \<Rightarrow> DomainEvent" where
  "new_DomainEvent now aggregate_id d = \<lparr>occurredAt = now, aggregateId = aggregate_id, details = d\<rparr>"

definition OrderCreated_EVENT_TYPE :: string where
  "OrderCreated_EVENT_TYPE = ''order.created''"

definition OrderItemAdded_EVENT_TYPE :: string where
  "OrderItemAdded_EVENT_TYPE = ''order.item.added''"

definition OrderItemQuantityIncreased_EVENT_TYPE :: string where
  "OrderItemQuantityIncreased_EVENT_TYPE = ''order.item.quantity.increased''"

definition new_OrderCreated :: "Date \<Rightarrow> OrderId \<Rightarrow> DomainEvent" where
  "new_OrderCreated now orderId =
     new_DomainEvent now OrderCreated_EVENT_TYPE (OrderCreatedDetails orderId)"

definition new_OrderItemAdded ::
  "Date \<Rightarrow> OrderId \<Rightarrow> ProductId \<Rightarrow> Quantity \<Rightarrow> Money \<Rightarrow> DomainEvent" where
  "new_OrderItemAdded now orderId p q u =
     new_DomainEvent now OrderItemAdded_EVENT_TYPE (OrderItemAddedDetails orderId p q u)"

definition new_OrderItemQuantityIncreased ::
  "Date \<Rightarrow> OrderId \<Rightarrow> ProductId \<Rightarrow> Quantity \<Rightarrow> Quantity \<Rightarrow> DomainEvent" where
  "new_OrderItemQuantityIncreased now orderId p previousQuantity newQuantity =
     new_DomainEvent now OrderItemQuantityIncreased_EVENT_TYPE
       (OrderItemQuantityIncreasedDetails orderId p previousQuantity newQuantity)"

section \<open>The Order aggregate\<close>

record Order =
  order_id :: OrderId
  order_items :: "OrderItem JsMap"
  domainEvents :: "DomainEvent list"
  createdAt :: Date

text \<open>The private constructor: the items are entered one by one under their product id.\<close>

definition new_Order :: "Date \<Rightarrow> OrderId \<Rightarrow> OrderItem list \<Rightarrow> Order" where
  "new_Order now i its =
     \<lparr>order_id = i,
      order_items = foldl (\<lambda>m item. Map_set (pid_value (productId item)) item m) [] its,
      domainEvents = [],
      createdAt = now\<rparr>"

definition recordEvent :: "DomainEvent \<Rightarrow> Order \<Rightarrow> Order" where
  "recordEvent event this = this\<lparr>domainEvents := domainEvents this @ [event]\<rparr>"

text \<open>
  \<^verbatim>\<open>Order.create(id?)\<close>. The clock reading \<open>now\<close> and the rendering \<open>r36\<close> of
  \<^verbatim>\<open>Math.random().toString(36)\<close> are the inputs that \<^verbatim>\<open>OrderId.generate\<close> reads.
  Within one operation the source reads the clock once for each date it stores; the model
  gives all of them the one reading \<open>now\<close>.
\<close>

definition Order_create :: "Date \<Rightarrow> string \<Rightarrow> OrderId option \<Rightarrow> Order" where
  "Order_create now r36 i =
     (let orderId = (case i of Some given \<Rightarrow> given | None \<Rightarrow> OrderId_generate now r36);
          order = new_Order now orderId []
      in recordEvent (new_OrderCreated now orderId) order)"

definition reconstitute :: "Date \<Rightarrow> OrderId \<Rightarrow> OrderItem list \<Rightarrow> Order" where
  "reconstitute now i its = new_Order now i its"

definition items :: "Order \<Rightarrow> OrderItem list" where
  "items this = Map_values (order_items this)"

text \<open>
  \<^verbatim>\<open>addItem\<close> mutates the aggregate and returns a result; the model returns the result
  together with the aggregate as the call leaves it.
\<close>

definition addItem ::
  "Date \<Rightarrow> ProductId \<Rightarrow> Quantity \<Rightarrow> Money \<Rightarrow> Order \<Rightarrow> (ErrorMessage + unit) \<times> Order" where
  "addItem now p q u this =
     (if amount u = Num 0 then (Inl ZeroUnitPrice, this)
      else
        (case (if Map_size (order_items this) > 0
               then (case Map_values (order_items this) of
                       firstItem # _ \<Rightarrow>
                         if \<not> hasSameCurrency (unitPrice firstItem) u
                         then Some (CurrencyMismatch (code (currency (unitPrice firstItem))))
                         else None
                     | [] \<Rightarrow> None)
               else None) of
           Some e \<Rightarrow> (Inl e, this)
         | None \<Rightarrow>
            (case Map_get (order_items this) (pid_value p) of
               Some existingItem \<Rightarrow>
                 (let previousQuantity = quantity existingItem;
                      updatedItem = increaseQuantity existingItem q;
                      this1 = this\<lparr>order_items := Map_set (pid_value p) updatedItem (order_items this)\<rparr>
                  in (Inr (),
                      recordEvent (new_OrderItemQuantityIncreased now (order_id this1) p
                                     previousQuantity (quantity updatedItem)) this1))
             | None \<Rightarrow>
                 (case OrderItem_create p q u of
                    Inl e \<Rightarrow> (Inl e, this)
                  | Inr item \<Rightarrow>
                      (let this1 = this\<lparr>order_items := Map_set (pid_value p) item (order_items this)\<rparr>
                       in (Inr (), recordEvent (new_OrderItemAdded now (order_id this1) p q u) this1))))))"

definition pullDomainEvents :: "Order \<Rightarrow> DomainEvent list \<times> Order" where
  "pullDomainEvents this = (domainEvents this, this\<lparr>domainEvents := []\<rparr>)"

subsection \<open>Totals\<close>






subsection \<open>Sequences of calls and invariants\<close>

text \<open>
  A sequence of calls, each with its clock reading. The result is \<open>None\<close> as soon as one
  call fails, and otherwise the aggregate after the last call.
\<close>

fun addItems :: "(Date \<times> ProductId \<times> Quantity \<times> Money) list \<Rightarrow> Order \<Rightarrow> Order option" where
  "addItems [] this = Some this"
| "addItems ((now, p, q, u) # calls) this =
     (case addItem now p q u this of
        (Inl _, _) \<Rightarrow> None
      | (Inr _, this') \<Rightarrow> addItems calls this')"

definition sharesSingleCurrency :: "Order \<Rightarrow> bool" where
  "sharesSingleCurrency this =
     list_all (\<lambda>a. list_all (\<lambda>b. hasSameCurrency (unitPrice a) (unitPrice b)) (items this))
       (items this)"

text \<open>
  The representation invariant of the aggregate: the keys of the item map are distinct, as
  in every \<^verbatim>\<open>Map\<close>, and each line is stored under the value of its own product id. The
  constructor establishes it and \<^verbatim>\<open>addItem\<close> keeps it.
\<close>

definition lines_inv :: "OrderItem JsMap \<Rightarrow> bool" where
  "lines_inv m =
     (distinct (Map_keys m) \<and> list_all (\<lambda>(k, item). pid_value (productId item) = k) m)"

definition Order_inv :: "Order \<Rightarrow> bool" where
  "Order_inv this = lines_inv (order_items this)"

section \<open>Application errors and the CreateOrder use case\<close>

datatype AppMessage =
    DomainMessage ErrorMessage      \<comment> \<open>the reason of a failed domain operation\<close>
  | OrderAlreadyExists string       \<comment> \<open>carries \<^verbatim>\<open>dto.orderId\<close>\<close>
  | ErrorCheckingExistence
  | ErrorPersistingOrder

type_synonym Cause = string

datatype AppError =
    ValidationError AppMessage "string option"    \<comment> \<open>message, field\<close>
  | NotFoundError AppMessage string string        \<comment> \<open>message, resource, id\<close>
  | ConflictError AppMessage string               \<comment> \<open>message, reason\<close>
  | InfraError AppMessage "Cause option"          \<comment> \<open>message, cause\<close>

definition conflictError :: "AppMessage \<Rightarrow> string \<Rightarrow> AppError" where
  "conflictError m r = ConflictError m r"

definition infraError :: "AppMessage \<Rightarrow> Cause option \<Rightarrow> AppError" where
  "infraError m c = InfraError m c"

record CreateOrderDTO =
  orderId :: "string option"

text \<open>
  The ports of the use case. Awaiting a call either yields a value or throws; what a port
  answers is an input of the model. Each call made is logged, in order, so that what the use
  case asked of its collaborators is part of its result. The logger has no part in the
  result and is left out.
\<close>

datatype 'a Awaited = Resolves 'a | Rejects Cause

record Ports =
  repo_exists :: "OrderId \<Rightarrow> bool Awaited"
  repo_save :: "Order \<Rightarrow> unit Awaited"
  bus_publishAll :: "DomainEvent list \<Rightarrow> unit Awaited"

datatype PortCall =
    Called_exists OrderId
  | Called_save Order
  | Called_publishAll "DomainEvent list"

text \<open>A string is truthy when it is present and not empty.\<close>

definition truthy :: "string option \<Rightarrow> bool" where
  "truthy v = (case v of None \<Rightarrow> False | Some s \<Rightarrow> s \<noteq> [])"

text \<open>
  The first block of \<^verbatim>\<open>execute\<close>: the order id is validated and checked, or generated.
  An absent id is not truthy, so under the test the case of an absent id is never reached; it
  stands there to make the case distinction complete.
\<close>

definition resolveOrderId ::
  "Ports \<Rightarrow> Date \<Rightarrow> string \<Rightarrow> CreateOrderDTO \<Rightarrow> (AppError + OrderId) \<times> PortCall list" where
  "resolveOrderId ports now r36 dto =
     (if truthy (orderId dto) then
        (case orderId dto of
           None \<Rightarrow> (Inr (OrderId_generate now r36), [])
         | Some given \<Rightarrow>
            (case OrderId_create given of
               Inl e \<Rightarrow> (Inl (ValidationError (DomainMessage e) (Some ''orderId'')), [])
             | Inr oid \<Rightarrow>
                (case repo_exists ports oid of
                   Resolves ex \<Rightarrow>
                     if ex then (Inl (conflictError (OrderAlreadyExists given) ''duplicate_order_id''),
                                 [Called_exists oid])
                     else (Inr oid, [Called_exists oid])
                 | Rejects c \<Rightarrow>
                     (Inl (infraError ErrorCheckingExistence (Some c)), [Called_exists oid]))))
      else (Inr (OrderId_generate now r36), []))"

text \<open>
  The rest of \<^verbatim>\<open>execute\<close>: the aggregate is created and saved, and its events are
  drained and handed to the event bus. A failure to publish is logged and the order is returned
  all the same.
\<close>

definition CreateOrderUseCase_execute ::
  "Ports \<Rightarrow> Date \<Rightarrow> string \<Rightarrow> CreateOrderDTO \<Rightarrow> (AppError + Order) \<times> PortCall list" where
  "CreateOrderUseCase_execute ports now r36 dto =
     (case resolveOrderId ports now r36 dto of
        (Inl err, calls) \<Rightarrow> (Inl err, calls)
      | (Inr oid, calls) \<Rightarrow>
         (let order = Order_create now r36 (Some oid)
          in case repo_save ports order of
               Rejects c \<Rightarrow> (Inl (infraError ErrorPersistingOrder (Some c)), calls @ [Called_save order])
             | Resolves _ \<Rightarrow>
                 (let (events, order') = pullDomainEvents order;
                      calls' = calls @ [Called_save order, Called_publishAll events]
                  in case bus_publishAll ports events of
                       Resolves _ \<Rightarrow> (Inr order', calls')
                     | Rejects _ \<Rightarrow> (Inr order', calls'))))"

section \<open>The outbox table and its compaction\<close>

record OutboxRow =
  row_id :: string
  aggregate_type :: string
  aggregate_id :: string
  event_type :: string
  payload :: string
  created_at :: Date
  published_at :: "Date option"






section \<open>Sample data\<close>

definition usd :: Currency where "usd = Currency ''USD''"

definition eur :: Currency where "eur = Currency ''EUR''"

definition laptop :: ProductId where "laptop = ProductId ''LAPTOP-001''"

definition mouse :: ProductId where "mouse = ProductId ''MOUSE-001''"

definition laptopLine :: OrderItem where
  "laptopLine = \<lparr>productId = laptop, quantity = Quantity (Num 2),
                 unitPrice = \<lparr>amount = Num 1200, currency = usd\<rparr>\<rparr>"

definition mouseLineEur :: OrderItem where
  "mouseLineEur = \<lparr>productId = mouse, quantity = Quantity (Num 1),
                   unitPrice = \<lparr>amount = Num 25, currency = eur\<rparr>\<rparr>"

definition sampleOrder :: Order where
  "sampleOrder = reconstitute 0 (OrderId ''ORD-1'') [laptopLine]"

definition mixedOrder :: Order where
  "mixedOrder = reconstitute 0 (OrderId ''ORD-2'') [laptopLine, mouseLineEur]"






text \<open>Ports that answer every call, and know no order.\<close>

definition okPorts :: Ports where
  "okPorts = \<lparr>repo_exists = (\<lambda>_. Resolves False), repo_save = (\<lambda>_. Resolves ()),
              bus_publishAll = (\<lambda>_. Resolves ())\<rparr>"



subsection \<open>Equations for evaluating the model on the sample data\<close>


lemmas sample_defs = sampleOrder_def mixedOrder_def reconstitute_def new_Order_def laptopLine_def
  mouseLineEur_def laptop_def mouse_def usd_def eur_def

lemmas addItem_eval = addItem_def Let_def Map_size_def Map_values_def hasSameCurrency_def
  Currency_equals_def increaseQuantity_def Quantity_add_def recordEvent_def OrderItem_create_def


section \<open>Facts about the model\<close>

subsection \<open>The built-in \<^verbatim>\<open>Map\<close>\<close>


lemma Map_keys_Map_set:
  "Map_keys (Map_set k v m) = (if k \<in> set (Map_keys m) then Map_keys m else Map_keys m @ [k])"
  by (induction m) (auto simp: Map_keys_def split: if_splits)


lemma Map_get_SomeD: "Map_get m k = Some v \<Longrightarrow> (k, v) \<in> set m"
  by (induction m) (auto split: if_splits)


lemma set_Map_set_subset: "set (Map_set k v m) \<subseteq> insert (k, v) (set m)"
  by (induction m) (auto split: if_splits)

lemma set_values_Map_set_subset:
  "set (Map_values (Map_set k v m)) \<subseteq> insert v (set (Map_values m))"
  using set_Map_set_subset[of k v m] by (auto simp: Map_values_def)

lemma Map_set_nonempty: "Map_set k v m \<noteq> []"
  by (cases m) (auto split: if_splits)

subsection \<open>The item lines\<close>

lemma lines_inv_Map_set:
  assumes "lines_inv m" and "pid_value (productId item) = k"
  shows "lines_inv (Map_set k item m)"
proof -
  have d: "distinct (Map_keys (Map_set k item m))"
    using assms(1) by (simp add: Map_keys_Map_set lines_inv_def)
  have "\<forall>(k', i) \<in> set (Map_set k item m). pid_value (productId i) = k'"
    using set_Map_set_subset[of k item m] assms by (auto simp: lines_inv_def list_all_iff)
  with d show ?thesis by (simp add: lines_inv_def list_all_iff)
qed

lemma lines_inv_foldl:
  "lines_inv m \<Longrightarrow>
   lines_inv (foldl (\<lambda>m item. Map_set (pid_value (productId item)) item m) m its)"
  by (induction its arbitrary: m) (simp_all add: lines_inv_Map_set)



subsection \<open>The ways \<^verbatim>\<open>addItem\<close> returns\<close>

lemma addItem_ok_nonzero: "fst (addItem now p q u this) = Inr () \<Longrightarrow> amount u \<noteq> Num 0"
  by (auto simp: addItem_def)

lemma addItem_ok_first_currency:
  "fst (addItem now p q u this) = Inr () \<Longrightarrow> items this \<noteq> [] \<Longrightarrow>
   code (currency (unitPrice (hd (items this)))) = code (currency u)"
  by (auto simp: addItem_def Let_def items_def Map_size_def Map_values_def
        hasSameCurrency_def Currency_equals_def
        split: if_splits list.splits option.splits)

lemma addItem_existing:
  assumes "amount u \<noteq> Num 0"
    and "Map_get (order_items this) (pid_value p) = Some existing"
    and "fst (addItem now p q u this) = Inr ()"
  shows "snd (addItem now p q u this) =
           this\<lparr>order_items := Map_set (pid_value p) (increaseQuantity existing q) (order_items this),
                domainEvents := domainEvents this @
                  [new_OrderItemQuantityIncreased now (order_id this) p (quantity existing)
                     (Quantity_add (quantity existing) q)]\<rparr>"
  using assms
  by (auto simp: addItem_def Let_def recordEvent_def increaseQuantity_def
           split: if_splits list.splits option.splits)

lemma addItem_new:
  assumes "Map_get (order_items this) (pid_value p) = None"
    and "fst (addItem now p q u this) = Inr ()"
  shows "snd (addItem now p q u this) =
           this\<lparr>order_items := Map_set (pid_value p)
                  \<lparr>productId = p, quantity = q, unitPrice = u\<rparr> (order_items this),
                domainEvents := domainEvents this @ [new_OrderItemAdded now (order_id this) p q u]\<rparr>"
  using assms
  by (auto simp: addItem_def Let_def recordEvent_def OrderItem_create_def
           split: if_splits list.splits option.splits)

lemma addItem_cases:
  obtains (failed) "isFail (fst (addItem now p q u this))" "snd (addItem now p q u this) = this"
  | (increased) existing where "Map_get (order_items this) (pid_value p) = Some existing"
      "order_items (snd (addItem now p q u this))
         = Map_set (pid_value p) (increaseQuantity existing q) (order_items this)"
  | (added) "Map_get (order_items this) (pid_value p) = None"
      "order_items (snd (addItem now p q u this))
         = Map_set (pid_value p) \<lparr>productId = p, quantity = q, unitPrice = u\<rparr> (order_items this)"
proof (cases "fst (addItem now p q u this)")
  case (Inl e)
  then have "isFail (fst (addItem now p q u this))" by (simp add: isFail_def)
  moreover from Inl have "snd (addItem now p q u this) = this"
    by (auto simp: addItem_def Let_def OrderItem_create_def
          split: if_splits list.splits option.splits)
  ultimately show ?thesis by (rule failed)
next
  case (Inr x)
  then have ok: "fst (addItem now p q u this) = Inr ()" by simp
  show ?thesis
  proof (cases "Map_get (order_items this) (pid_value p)")
    case None
    then show ?thesis
      using addItem_new[OF None ok] by (intro added) simp_all
  next
    case (Some existing)
    then show ?thesis
      using addItem_existing[OF addItem_ok_nonzero[OF ok] Some ok] by (intro increased) simp_all
  qed
qed

lemma addItem_success_shape:
  assumes ok: "fst (addItem now p q u this) = Inr ()"
  shows "\<exists>v. order_items (snd (addItem now p q u this)) = Map_set (pid_value p) v (order_items this)
           \<and> (unitPrice v = u \<or> (\<exists>e \<in> set (items this). unitPrice v = unitPrice e))"
proof (cases "Map_get (order_items this) (pid_value p)")
  case None
  show ?thesis
    by (rule exI[of _ "\<lparr>productId = p, quantity = q, unitPrice = u\<rparr>"])
       (simp add: addItem_new[OF None ok])
next
  case (Some e)
  then have "e \<in> set (items this)"
    by (auto dest!: Map_get_SomeD simp: items_def Map_values_def intro: rev_image_eqI)
  then show ?thesis
    by (intro exI[of _ "increaseQuantity e q"])
       (auto simp: addItem_existing[OF addItem_ok_nonzero[OF ok] Some ok] increaseQuantity_def)
qed

subsection \<open>The invariants hold of every order\<close>

lemma Order_inv_new_Order: "Order_inv (new_Order now i its)"
  using lines_inv_foldl[of "[]" its]
  by (simp add: Order_inv_def new_Order_def lines_inv_def Map_keys_def)

lemma Order_inv_Order_create: "Order_inv (Order_create now r36 i)"
  by (simp add: Order_create_def Let_def recordEvent_def Order_inv_def lines_inv_def
        new_Order_def Map_keys_def)

lemma Order_inv_reconstitute: "Order_inv (reconstitute now i its)"
  by (simp add: reconstitute_def Order_inv_new_Order)

lemma Order_inv_addItem:
  assumes "Order_inv this"
  shows "Order_inv (snd (addItem now p q u this))"
proof (cases rule: addItem_cases[of now p q u this])
  case failed
  with assms show ?thesis by simp
next
  case (increased existing)
  from increased(1) have "(pid_value p, existing) \<in> set (order_items this)"
    by (rule Map_get_SomeD)
  with assms have "pid_value (productId (increaseQuantity existing q)) = pid_value p"
    by (auto simp: Order_inv_def lines_inv_def list_all_iff increaseQuantity_def)
  with assms show ?thesis
    by (simp add: Order_inv_def increased(2) lines_inv_Map_set)
next
  case added
  with assms show ?thesis
    by (simp add: Order_inv_def lines_inv_Map_set)
qed

lemma overflowBound_pos: "0 < overflowBound"
  by (simp add: overflowBound_def)

lemma fromExact_fits: "0 \<le> r \<Longrightarrow> r < overflowBound \<Longrightarrow> fromExact r = Num r"
  using overflowBound_pos by (simp add: fromExact_def)

lemma Money_create_inv:
  "Money_create a c = Inr m \<Longrightarrow> (\<exists>r. amount m = Num r \<and> 0 \<le> r) \<and> currency m = c"
  by (auto simp: Money_create_def Number_isFinite_def js_less_def
        split: if_splits number.splits)

lemma Quantity_create_inv:
  "Quantity_create v = Inr q \<Longrightarrow> \<exists>n. qty_value q = Num n \<and> 0 < n \<and> of_int \<lfloor>n\<rfloor> = n"
  by (auto simp: Quantity_create_def Number_isInteger_def js_less_eq_def
        split: if_splits number.splits)

lemma OrderItem_inv_iff:
  "OrderItem_inv i \<longleftrightarrow>
   (\<exists>a n. amount (unitPrice i) = Num a \<and> 0 \<le> a \<and> qty_value (quantity i) = Num n \<and> 0 < n)"
  by (auto simp: OrderItem_inv_def split: number.splits)

lemma OrderItem_inv_addItem:
  assumes old: "list_all OrderItem_inv (items this)"
    and new: "OrderItem_inv \<lparr>productId = p, quantity = q, unitPrice = u\<rparr>"
    and fits: "\<forall>existing. Map_get (order_items this) (pid_value p) = Some existing \<longrightarrow>
                finiteValue (qty_value (quantity existing)) + finiteValue (qty_value q) < overflowBound"
  shows "list_all OrderItem_inv (items (snd (addItem now p q u this)))"
proof (cases rule: addItem_cases[of now p q u this])
  case failed
  with old show ?thesis by simp
next
  case (increased existing)
  from increased(1) have "existing \<in> set (items this)"
    by (auto dest!: Map_get_SomeD simp: items_def Map_values_def intro: rev_image_eqI)
  with old have "OrderItem_inv existing" by (simp add: list_all_iff)
  then obtain a n where e: "amount (unitPrice existing) = Num a" "0 \<le> a"
      "qty_value (quantity existing) = Num n" "0 < n"
    unfolding OrderItem_inv_iff by blast
  from new obtain n' where q: "qty_value q = Num n'" "0 < n'"
    unfolding OrderItem_inv_iff by auto
  from fits increased(1) e(3) q(1) have "n + n' < overflowBound"
    by (simp add: finiteValue_def)
  with e(4) q(2) have "fromExact (n + n') = Num (n + n')"
    by (intro fromExact_fits) simp_all
  with e q have "OrderItem_inv (increaseQuantity existing q)"
    by (simp add: OrderItem_inv_def increaseQuantity_def Quantity_add_def js_add_def)
  with old show ?thesis
    using set_values_Map_set_subset[of "pid_value p" "increaseQuantity existing q" "order_items this"]
    by (auto simp: list_all_iff items_def increased(2))
next
  case added
  with old new show ?thesis
    using set_values_Map_set_subset[of "pid_value p" "\<lparr>productId = p, quantity = q, unitPrice = u\<rparr>"
        "order_items this"]
    by (auto simp: list_all_iff items_def)
qed

section \<open>Merging a line that exists\<close>



section \<open>Currency coherence\<close>

lemma sharesSingleCurrency_iff:
  "sharesSingleCurrency this \<longleftrightarrow>
   (\<forall>a \<in> set (items this). \<forall>b \<in> set (items this).
      code (currency (unitPrice a)) = code (currency (unitPrice b)))"
  by (simp add: sharesSingleCurrency_def list_all_iff hasSameCurrency_def Currency_equals_def)

lemma addItem_keeps_single_currency:
  assumes single: "sharesSingleCurrency this"
    and ok: "fst (addItem now p q u this) = Inr ()"
  shows "sharesSingleCurrency (snd (addItem now p q u this))"
proof -
  let ?this' = "snd (addItem now p q u this)"
  from addItem_success_shape[OF ok] obtain v where
    its: "order_items ?this' = Map_set (pid_value p) v (order_items this)"
    and v: "unitPrice v = u \<or> (\<exists>e \<in> set (items this). unitPrice v = unitPrice e)"
    by blast
  have sub: "set (items ?this') \<subseteq> insert v (set (items this))"
    using set_values_Map_set_subset[of "pid_value p" v "order_items this"]
    by (simp add: items_def its)
  have old: "\<forall>a \<in> set (items this). \<forall>b \<in> set (items this).
      code (currency (unitPrice a)) = code (currency (unitPrice b))"
    using single unfolding sharesSingleCurrency_iff .
  have new: "\<forall>a \<in> set (items this).
      code (currency (unitPrice v)) = code (currency (unitPrice a))"
  proof
    fix a assume a: "a \<in> set (items this)"
    then have ne: "items this \<noteq> []" by auto
    then have h: "hd (items this) \<in> set (items this)" by simp
    from v show "code (currency (unitPrice v)) = code (currency (unitPrice a))"
    proof
      assume "unitPrice v = u"
      moreover have "code (currency u) = code (currency (unitPrice (hd (items this))))"
        using addItem_ok_first_currency[OF ok ne] by simp
      moreover have "code (currency (unitPrice (hd (items this)))) = code (currency (unitPrice a))"
        using old h a by blast
      ultimately show ?thesis by simp
    next
      assume "\<exists>e \<in> set (items this). unitPrice v = unitPrice e"
      then obtain e where e: "e \<in> set (items this)" "unitPrice v = unitPrice e" by blast
      have "code (currency (unitPrice e)) = code (currency (unitPrice a))"
        using old e(1) a by blast
      then show ?thesis by (simp only: e(2))
    qed
  qed
  show ?thesis
    unfolding sharesSingleCurrency_iff
  proof (intro ballI)
    fix a b assume "a \<in> set (items ?this')" "b \<in> set (items ?this')"
    with sub have "a = v \<or> a \<in> set (items this)" "b = v \<or> b \<in> set (items this)"
      by auto
    with old new show "code (currency (unitPrice a)) = code (currency (unitPrice b))"
      by metis
  qed
qed

lemma sharesSingleCurrency_Order_create: "sharesSingleCurrency (Order_create now r36 i)"
  by (simp add: sharesSingleCurrency_def Order_create_def new_Order_def recordEvent_def
        items_def Map_values_def Let_def)

text \<open>
  Claim C2, as amended. When the items of an order share a single currency, they still do
  after any sequence of \<^verbatim>\<open>addItem\<close> calls that all succeed. An order from
  \<^verbatim>\<open>Order.create\<close> has no items and is such an order.
\<close>

theorem addItems_keep_single_currency:
  "sharesSingleCurrency this \<Longrightarrow> addItems calls this = Some this' \<Longrightarrow>
   sharesSingleCurrency this'"
proof (induction calls arbitrary: this)
  case Nil
  then show ?case by simp
next
  case (Cons c calls)
  obtain now p q u where c: "c = (now, p, q, u)" by (cases c)
  from Cons.prems(2) c have ok: "fst (addItem now p q u this) = Inr ()"
    and rest: "addItems calls (snd (addItem now p q u this)) = Some this'"
    by (auto split: prod.splits sum.splits)
  from Cons.IH[OF addItem_keeps_single_currency[OF Cons.prems(1) ok] rest]
  show ?case .
qed

theorem addItems_keep_single_currency_witness:
  "sharesSingleCurrency sampleOrder
   \<and> map_option sharesSingleCurrency
       (addItems [(1, mouse, Quantity (Num 1), \<lparr>amount = Num 25, currency = usd\<rparr>),
                  (2, laptop, Quantity (Num 3), \<lparr>amount = Num 1500, currency = usd\<rparr>)] sampleOrder)
     = Some True"
proof -
  let ?calls = "[(1, mouse, Quantity (Num 1), \<lparr>amount = Num 25, currency = usd\<rparr>),
                 (2, laptop, Quantity (Num 3), \<lparr>amount = Num 1500, currency = usd\<rparr>)]"
  have h1: "sharesSingleCurrency sampleOrder"
    by (simp add: sharesSingleCurrency_def items_def addItem_eval sample_defs)
  obtain this' where h2: "addItems ?calls sampleOrder = Some this'"
    by (simp add: addItem_eval sample_defs)
  from addItems_keep_single_currency[OF h1 h2] have "sharesSingleCurrency this'" .
  with h1 show ?thesis by (simp only: h2 option.map simp_thms)
qed

text \<open>
  Claim C2 as stated, for every order, fails: \<^verbatim>\<open>Order.reconstitute\<close> takes the items
  as they come. An order reconstituted from a USD line and a EUR line accepts a further USD
  line, the first line being in USD, and its items do not share a single currency afterwards.
\<close>

theorem mixed_reconstituted_order_counterexample:
  "map_option sharesSingleCurrency
     (addItems [(1, ProductId ''KEYBOARD-001'', Quantity (Num 1), \<lparr>amount = Num 75, currency = usd\<rparr>)]
        mixedOrder) = Some False"
  by (simp add: addItem_eval sample_defs sharesSingleCurrency_def items_def)

section \<open>The aggregate id of an event\<close>

text \<open>
  Claim C3. Each of the three events stores the event-type string of its class as
  \<^verbatim>\<open>aggregateId\<close>, whatever the order id is; this holds of the event that
  \<^verbatim>\<open>Order.create\<close> records and of the one a successful \<^verbatim>\<open>addItem\<close> appends. For the
  order id \<^verbatim>\<open>ORD-1\<close> the \<^verbatim>\<open>aggregateId\<close> is therefore not the order id.
\<close>

theorem events_carry_event_type_as_aggregateId:
  "aggregateId (new_OrderCreated now i) = ''order.created''
   \<and> aggregateId (new_OrderItemAdded now i p q u) = ''order.item.added''
   \<and> aggregateId (new_OrderItemQuantityIncreased now i p q q') = ''order.item.quantity.increased''
   \<and> map aggregateId (domainEvents (Order_create now r36 given)) = [''order.created'']
   \<and> map aggregateId (domainEvents (snd (addItem now p q u this))) =
       map aggregateId (domainEvents this) @
         (case fst (addItem now p q u this) of
            Inl _ \<Rightarrow> []
          | Inr _ \<Rightarrow> [if Map_has (order_items this) (pid_value p)
                      then ''order.item.quantity.increased'' else ''order.item.added''])
   \<and> aggregateId (new_OrderCreated now (OrderId ''ORD-1'')) \<noteq> oid_value (OrderId ''ORD-1'')"
  by (auto simp: new_OrderCreated_def new_OrderItemAdded_def new_OrderItemQuantityIncreased_def
        new_DomainEvent_def OrderCreated_EVENT_TYPE_def OrderItemAdded_EVENT_TYPE_def
        OrderItemQuantityIncreased_EVENT_TYPE_def Order_create_def new_Order_def recordEvent_def
        addItem_def Let_def OrderItem_create_def Map_has_def
        split: if_splits list.splits option.splits sum.splits)

theorem events_carry_event_type_as_aggregateId_witness:
  "map aggregateId (domainEvents (snd (addItem 5 laptop (Quantity (Num 3)) \<lparr>amount = Num 1500, currency = usd\<rparr>
      (snd (addItem 4 laptop (Quantity (Num 2)) \<lparr>amount = Num 1200, currency = usd\<rparr>
         (Order_create 3 ''0.i'' (Some (OrderId ''ORD-1''))))))))
   = [''order.created'', ''order.item.added'', ''order.item.quantity.increased'']"
proof -
  let ?o0 = "Order_create 3 ''0.i'' (Some (OrderId ''ORD-1''))"
  let ?u1 = "\<lparr>amount = Num 1200, currency = usd\<rparr>"
  let ?u2 = "\<lparr>amount = Num 1500, currency = usd\<rparr>"
  let ?o1 = "snd (addItem 4 laptop (Quantity (Num 2)) ?u1 ?o0)"
  have r1: "fst (addItem 4 laptop (Quantity (Num 2)) ?u1 ?o0) = Inr ()"
    and h1: "\<not> Map_has (order_items ?o0) (pid_value laptop)"
    by (simp_all add: addItem_eval Order_create_def Map_has_def sample_defs)
  have r2: "fst (addItem 5 laptop (Quantity (Num 3)) ?u2 ?o1) = Inr ()"
    and h2: "Map_has (order_items ?o1) (pid_value laptop)"
    by (simp_all add: addItem_eval Order_create_def Map_has_def sample_defs)
  show ?thesis
    using events_carry_event_type_as_aggregateId[of 3 "OrderId ''ORD-1''" laptop "Quantity (Num 2)" ?u1 "Quantity (Num 2)" "''0.i''" "Some (OrderId ''ORD-1'')" ?o0]
      events_carry_event_type_as_aggregateId[of 4 "OrderId ''ORD-1''" laptop "Quantity (Num 2)" ?u1 "Quantity (Num 2)" "''0.i''" "Some (OrderId ''ORD-1'')" ?o0]
      events_carry_event_type_as_aggregateId[of 5 "OrderId ''ORD-1''" laptop "Quantity (Num 3)" ?u2 "Quantity (Num 2)" "''0.i''" "Some (OrderId ''ORD-1'')" ?o1]
    by (simp add: r1 r2 h1 h2)
qed

section \<open>The order id in CreateOrder\<close>

lemma trim_all_whitespace:
  assumes "list_all isWhiteSpace s"
  shows "trim s = []"
proof -
  have d: "dropWhile isWhiteSpace s = []"
    using assms by (simp only: dropWhile_eq_Nil_conv list_all_iff)
  show ?thesis unfolding trim_def d by simp
qed

lemma resolveOrderId_absent:
  "orderId dto = None \<or> orderId dto = Some [] \<Longrightarrow>
   resolveOrderId ports now r36 dto = (Inr (OrderId_generate now r36), [])"
  by (auto simp: resolveOrderId_def truthy_def)

lemma order_id_Order_create: "order_id (Order_create now r36 (Some i)) = i"
  by (simp add: Order_create_def new_Order_def recordEvent_def Let_def)

text \<open>
  Claim C4. In \<^verbatim>\<open>CreateOrderUseCase.execute\<close> an absent \<^verbatim>\<open>orderId\<close> and the empty
  string both lead to a generated id: no port is asked whether the id exists, the result is
  never a \<^verbatim>\<open>ValidationError\<close>, the first port call saves an order that carries the
  generated id, and an order that is returned carries it. An \<^verbatim>\<open>orderId\<close> that is not
  empty and consists of white space only yields a \<^verbatim>\<open>ValidationError\<close> on the field
  \<^verbatim>\<open>orderId\<close>, and no port is called.
\<close>

theorem CreateOrder_orderId_handling:
  "(orderId dto = None \<or> orderId dto = Some [] \<longrightarrow>
      resolveOrderId ports now r36 dto = (Inr (OrderId_generate now r36), [])
    \<and> (\<forall>m f. fst (CreateOrderUseCase_execute ports now r36 dto) \<noteq> Inl (ValidationError m f))
    \<and> (\<forall>order. fst (CreateOrderUseCase_execute ports now r36 dto) = Inr order \<longrightarrow>
          order_id order = OrderId_generate now r36)
    \<and> take 1 (snd (CreateOrderUseCase_execute ports now r36 dto))
        = [Called_save (Order_create now r36 (Some (OrderId_generate now r36)))])
   \<and> (orderId dto = Some s \<and> s \<noteq> [] \<and> list_all isWhiteSpace s \<longrightarrow>
        CreateOrderUseCase_execute ports now r36 dto
          = (Inl (ValidationError (DomainMessage EmptyOrderId) (Some ''orderId'')), []))"
proof (intro conjI impI)
  assume a: "orderId dto = None \<or> orderId dto = Some []"
  note r = resolveOrderId_absent[OF a, of ports now r36]
  show "resolveOrderId ports now r36 dto = (Inr (OrderId_generate now r36), [])"
    by (rule r)
  show "\<forall>m f. fst (CreateOrderUseCase_execute ports now r36 dto) \<noteq> Inl (ValidationError m f)"
    by (auto simp: CreateOrderUseCase_execute_def r Let_def infraError_def pullDomainEvents_def
          split: Awaited.splits)
  show "\<forall>order. fst (CreateOrderUseCase_execute ports now r36 dto) = Inr order \<longrightarrow>
          order_id order = OrderId_generate now r36"
    by (auto simp: CreateOrderUseCase_execute_def r Let_def pullDomainEvents_def
          order_id_Order_create split: Awaited.splits)
  show "take 1 (snd (CreateOrderUseCase_execute ports now r36 dto))
        = [Called_save (Order_create now r36 (Some (OrderId_generate now r36)))]"
    by (auto simp: CreateOrderUseCase_execute_def r Let_def pullDomainEvents_def
          split: Awaited.splits)
next
  assume b: "orderId dto = Some s \<and> s \<noteq> [] \<and> list_all isWhiteSpace s"
  then have "OrderId_create s = Inl EmptyOrderId"
    by (simp add: OrderId_create_def trim_all_whitespace)
  with b show "CreateOrderUseCase_execute ports now r36 dto
          = (Inl (ValidationError (DomainMessage EmptyOrderId) (Some ''orderId'')), [])"
    by (simp add: CreateOrderUseCase_execute_def resolveOrderId_def truthy_def)
qed

theorem CreateOrder_orderId_handling_witness:
  "resolveOrderId okPorts 0 ''0.i'' \<lparr>orderId = None\<rparr> = (Inr (OrderId ''ORD-0-i''), [])
   \<and> resolveOrderId okPorts 0 ''0.i'' \<lparr>orderId = Some []\<rparr> = (Inr (OrderId ''ORD-0-i''), [])
   \<and> CreateOrderUseCase_execute okPorts 0 ''0.i'' \<lparr>orderId = Some [CHR 0x20, CHR 0x09]\<rparr>
     = (Inl (ValidationError (DomainMessage EmptyOrderId) (Some ''orderId'')), [])"
proof -
  have g: "OrderId_generate 0 ''0.i'' = OrderId ''ORD-0-i''"
    by (simp add: OrderId_generate_def Number_toString36_def substring_def digit36_def
        base36_digits_def toString36_nat.simps Let_def)
  have h1: "orderId \<lparr>orderId = None\<rparr> = None \<or> orderId \<lparr>orderId = None\<rparr> = Some []"
    by simp
  have h2: "orderId \<lparr>orderId = Some []\<rparr> = None \<or> orderId \<lparr>orderId = Some []\<rparr> = Some []"
    by simp
  have h3: "orderId \<lparr>orderId = Some [CHR 0x20, CHR 0x09]\<rparr> = Some [CHR 0x20, CHR 0x09]
      \<and> [CHR 0x20, CHR 0x09] \<noteq> [] \<and> list_all isWhiteSpace [CHR 0x20, CHR 0x09]"
    by (simp add: isWhiteSpace_def)
  note t1 = CreateOrder_orderId_handling[THEN conjunct1, rule_format, OF h1, THEN conjunct1]
  note t2 = CreateOrder_orderId_handling[THEN conjunct1, rule_format, OF h2, THEN conjunct1]
  note t3 = CreateOrder_orderId_handling[THEN conjunct2, rule_format, OF h3]
  show ?thesis
    by (simp only: t1 t2 t3 g simp_thms)
qed

section \<open>The total of an order\<close>



















section \<open>Compaction of the outbox\<close>







section \<open>The closed set of currencies\<close>

lemma toUpperCase_char_fixes_whitespace:
  assumes "isWhiteSpace c"
  shows "toUpperCase_char c = c"
proof -
  from assms consider "c = CHR 0x09" | "c = CHR 0x0A" | "c = CHR 0x0B" | "c = CHR 0x0C"
    | "c = CHR 0x0D" | "c = CHR 0x20" | "c = CHR 0xA0"
    by (auto simp: isWhiteSpace_def)
  then show ?thesis
    by cases (simp_all add: toUpperCase_char_def)
qed

lemma isWhiteSpace_toUpperCase_char:
  "isWhiteSpace c \<Longrightarrow> isWhiteSpace (toUpperCase_char c)"
  by (simp add: toUpperCase_char_fixes_whitespace)

lemma valid_code_cases:
  assumes "isValidCurrencyCode w"
  shows "w = ''USD'' \<or> w = ''EUR'' \<or> w = ''GBP'' \<or> w = ''JPY'' \<or> w = ''MXN''
         \<or> w = ''ARS'' \<or> w = ''CLP''"
  using assms by (simp add: isValidCurrencyCode_def)

lemma valid_code_no_whitespace:
  assumes "isValidCurrencyCode w"
  shows "w \<noteq> [] \<and> \<not> isWhiteSpace (hd w) \<and> \<not> isWhiteSpace (last w)"
  using valid_code_cases[OF assms]
  by (elim disjE) (simp_all add: isWhiteSpace_def)

text \<open>
  Claim C7. \<^verbatim>\<open>Currency.create(s)\<close> succeeds exactly when the upper-cased \<open>s\<close> is one
  of the seven supported codes, and the currency it then returns has the upper-cased \<open>s\<close>
  as its code. Nothing is trimmed: a string that begins or ends with white space fails.
\<close>

theorem Currency_create_closed_set:
  "(isOk (Currency_create s) \<longleftrightarrow>
      toUpperCase s \<in> {''USD'', ''EUR'', ''GBP'', ''JPY'', ''MXN'', ''ARS'', ''CLP''})
   \<and> (\<forall>c. Currency_create s = Inr c \<longrightarrow> code c = toUpperCase s)
   \<and> (s \<noteq> [] \<and> (isWhiteSpace (hd s) \<or> isWhiteSpace (last s)) \<longrightarrow> isFail (Currency_create s))"
proof (intro conjI allI impI)
  show "isOk (Currency_create s) \<longleftrightarrow>
      toUpperCase s \<in> {''USD'', ''EUR'', ''GBP'', ''JPY'', ''MXN'', ''ARS'', ''CLP''}"
    by (simp add: Currency_create_def Let_def isOk_def isValidCurrencyCode_def)
next
  fix c assume "Currency_create s = Inr c"
  then show "code c = toUpperCase s"
    by (auto simp: Currency_create_def Let_def split: if_splits)
next
  assume ws: "s \<noteq> [] \<and> (isWhiteSpace (hd s) \<or> isWhiteSpace (last s))"
  then have "hd (toUpperCase s) = toUpperCase_char (hd s)"
      "last (toUpperCase s) = toUpperCase_char (last s)"
    by (simp_all add: toUpperCase_def hd_map last_map)
  with ws have "isWhiteSpace (hd (toUpperCase s)) \<or> isWhiteSpace (last (toUpperCase s))"
    using isWhiteSpace_toUpperCase_char by auto
  then have "\<not> isValidCurrencyCode (toUpperCase s)"
    using valid_code_no_whitespace by blast
  then show "isFail (Currency_create s)"
    by (simp add: Currency_create_def Let_def isFail_def)
qed

theorem Currency_create_closed_set_witness:
  "Currency_create ''eur'' = Inr (Currency ''EUR'')
   \<and> isFail (Currency_create '' eur'') \<and> isFail (Currency_create ''eur '')
   \<and> isFail (Currency_create ''XYZ'')"
proof -
  have up: "toUpperCase ''eur'' = ''EUR''" "toUpperCase ''XYZ'' = ''XYZ''"
    by (simp_all add: toUpperCase_def toUpperCase_char_def)
  have ws: "isWhiteSpace (hd '' eur'')" "isWhiteSpace (last ''eur '')"
    by (simp_all add: isWhiteSpace_def)
  obtain c where c: "Currency_create ''eur'' = Inr c"
    using Currency_create_closed_set[of "''eur''"] up by (auto simp: isOk_def split: sum.splits)
  then have "code c = ''EUR''"
    using Currency_create_closed_set[of "''eur''"] up by simp
  then have "c = Currency ''EUR''" by (cases c) simp
  moreover have "\<not> isOk (Currency_create ''XYZ'')"
    using Currency_create_closed_set[of "''XYZ''"] up by simp
  then have "isFail (Currency_create ''XYZ'')"
    by (simp add: isOk_def isFail_def split: sum.splits)
  ultimately show ?thesis
    using c ws Currency_create_closed_set[of "'' eur''"] Currency_create_closed_set[of "''eur ''"]
    by simp
qed

section \<open>Generated order ids\<close>

lemma length_base36_digits: "length base36_digits = 36"
  by (simp add: base36_digits_def)

lemma digit36_is_base36: "d < 36 \<Longrightarrow> digit36 d \<in> set base36_digits"
  unfolding digit36_def by (rule nth_mem) (simp add: length_base36_digits)

lemma toString36_nat_is_base36: "is_base36 (toString36_nat n)"
proof (induction n rule: toString36_nat.induct)
  case (1 n)
  show ?case
  proof (cases "n < 36")
    case True
    then show ?thesis
      using digit36_is_base36[of n] by (simp add: toString36_nat.simps[of n] is_base36_def)
  next
    case False
    then show ?thesis
      using "1.IH" digit36_is_base36[of "n mod 36"]
      by (simp add: toString36_nat.simps[of n] is_base36_def)
  qed
qed

lemma is_base36_take: "is_base36 s \<Longrightarrow> is_base36 (take n s)"
  by (auto simp: is_base36_def list_all_iff dest: in_set_takeD)

text \<open>
  Claim C8, as amended. A generated id is \<^verbatim>\<open>ORD-\<close>, the base-36 rendering of the clock
  reading, a hyphen, and the characters at positions 2 to 8 of the base-36 rendering of the
  random number: at most seven characters, and exactly seven precisely when that rendering
  has at least seven digits after \<^verbatim>\<open>0.\<close>; they are base-36 digits when the rendering
  consists of such digits. In that case the id has the form the specification gives.
\<close>

theorem OrderId_generate_format:
  "oid_value (OrderId_generate now r36)
     = ''ORD-'' @ Number_toString36 now @ ''-'' @ take 7 (drop 2 r36)
   \<and> length (take 7 (drop 2 r36)) \<le> 7
   \<and> (length (take 7 (drop 2 r36)) = 7 \<longleftrightarrow> 9 \<le> length r36)
   \<and> (is_base36 (drop 2 r36) \<longrightarrow> is_base36 (take 7 (drop 2 r36)))
   \<and> (0 \<le> now \<longrightarrow> is_base36 (Number_toString36 now))
   \<and> (9 \<le> length r36 \<and> is_base36 (drop 2 r36) \<longrightarrow>
        spec_generated_form now (oid_value (OrderId_generate now r36)))"
proof -
  have v: "oid_value (OrderId_generate now r36)
     = ''ORD-'' @ Number_toString36 now @ ''-'' @ take 7 (drop 2 r36)"
    by (simp add: OrderId_generate_def substring_def Let_def)
  have len: "length (take 7 (drop 2 r36)) = 7 \<longleftrightarrow> 9 \<le> length r36"
    by auto
  have t: "0 \<le> now \<longrightarrow> is_base36 (Number_toString36 now)"
    by (simp add: Number_toString36_def toString36_nat_is_base36)
  have spec: "9 \<le> length r36 \<and> is_base36 (drop 2 r36) \<longrightarrow>
        spec_generated_form now (oid_value (OrderId_generate now r36))"
    using len by (simp add: v spec_generated_form_def Let_def is_base36_take)
  show ?thesis
    using v len t spec by (simp add: is_base36_take)
qed

theorem OrderId_generate_format_witness:
  "OrderId_generate 1700000000000 ''0.4fzyo82mvyr'' = OrderId ''ORD-loyw3v28-4fzyo82''
   \<and> spec_generated_form 1700000000000 ''ORD-loyw3v28-4fzyo82''"
proof -
  have h1: "9 \<le> length ''0.4fzyo82mvyr'' \<and> is_base36 (drop 2 ''0.4fzyo82mvyr'')"
    by (simp add: is_base36_def base36_digits_def)
  have h2: "(0::int) \<le> 1700000000000" by simp
  have t: "Number_toString36 1700000000000 = ''loyw3v28''"
    by (simp add: Number_toString36_def digit36_def base36_digits_def toString36_nat.simps)
  show ?thesis
    using h1 h2 OrderId_generate_format[of 1700000000000 "''0.4fzyo82mvyr''"]
    by (cases "OrderId_generate 1700000000000 ''0.4fzyo82mvyr''") (simp add: t)
qed

text \<open>
  Claim C8 as stated fails when the random number has a short rendering: for one half,
  \<^verbatim>\<open>Math.random().toString(36)\<close> is \<^verbatim>\<open>0.i\<close> and the suffix is the single
  character \<^verbatim>\<open>i\<close>.
\<close>

theorem OrderId_generate_short_suffix_counterexample:
  "OrderId_generate 1700000000000 ''0.i'' = OrderId ''ORD-loyw3v28-i''
   \<and> \<not> spec_generated_form 1700000000000 (oid_value (OrderId_generate 1700000000000 ''0.i''))"
  by (simp add: OrderId_generate_def Number_toString36_def substring_def digit36_def
        base36_digits_def spec_generated_form_def toString36_nat.simps Let_def)

section \<open>A failed \<^verbatim>\<open>addItem\<close>\<close>

text \<open>
  Claim C9. When \<^verbatim>\<open>addItem\<close> returns a failure, the aggregate is as it was before the
  call: the item map and the buffer of pending events are unchanged, so
  \<^verbatim>\<open>pullDomainEvents\<close> yields what it would have yielded before.
\<close>

theorem addItem_failure_leaves_order_unchanged:
  "isFail (fst (addItem now p q u this)) \<Longrightarrow>
     snd (addItem now p q u this) = this
   \<and> order_items (snd (addItem now p q u this)) = order_items this
   \<and> domainEvents (snd (addItem now p q u this)) = domainEvents this
   \<and> pullDomainEvents (snd (addItem now p q u this)) = pullDomainEvents this"
  by (auto simp: addItem_def isFail_def Let_def OrderItem_create_def
           split: if_splits list.splits option.splits sum.splits)

theorem addItem_failure_leaves_order_unchanged_witness:
  "isFail (fst (addItem 5 mouse (Quantity (Num 1)) \<lparr>amount = Num 25, currency = eur\<rparr> sampleOrder))
   \<and> snd (addItem 5 mouse (Quantity (Num 1)) \<lparr>amount = Num 25, currency = eur\<rparr> sampleOrder) = sampleOrder"
proof -
  have h: "isFail (fst (addItem 5 mouse (Quantity (Num 1)) \<lparr>amount = Num 25, currency = eur\<rparr> sampleOrder))"
    by (simp add: addItem_eval isFail_def sample_defs)
  show ?thesis
    using h addItem_failure_leaves_order_unchanged[OF h] by simp
qed

section \<open>\<^verbatim>\<open>OrderItem.create\<close> cannot fail\<close>

text \<open>
  Claim C10. \<^verbatim>\<open>OrderItem.create\<close> returns ok for every input. Hence a failure of
  \<^verbatim>\<open>addItem\<close> comes from one of its first two checks only, the zero unit price or the
  currency that differs from the first line's: the branch that hands on a failure of
  \<^verbatim>\<open>OrderItem.create\<close> is never taken.
\<close>

theorem OrderItem_create_always_ok:
  "OrderItem_create p q u = Inr \<lparr>productId = p, quantity = q, unitPrice = u\<rparr>
   \<and> isOk (OrderItem_create p q u)
   \<and> (isFail (fst (addItem now p q u this)) \<longrightarrow>
        amount u = Num 0 \<or>
        (items this \<noteq> [] \<and> \<not> hasSameCurrency (unitPrice (hd (items this))) u))"
  by (auto simp: addItem_def isFail_def isOk_def Let_def OrderItem_create_def items_def
           split: if_splits list.splits option.splits sum.splits)

theorem OrderItem_create_always_ok_witness:
  "isFail (fst (addItem 5 mouse (Quantity (Num 1)) \<lparr>amount = Num 25, currency = eur\<rparr> sampleOrder))
   \<and> \<not> hasSameCurrency (unitPrice (hd (items sampleOrder))) \<lparr>amount = Num 25, currency = eur\<rparr>"
proof -
  have h: "isFail (fst (addItem 5 mouse (Quantity (Num 1)) \<lparr>amount = Num 25, currency = eur\<rparr> sampleOrder))"
    by (simp add: addItem_eval isFail_def sample_defs)
  show ?thesis
    using h OrderItem_create_always_ok[of mouse "Quantity (Num 1)" "\<lparr>amount = Num 25, currency = eur\<rparr>" 5 sampleOrder]
    by simp
qed

end
